theory Spec2Isabelle
  imports Main
begin

section \<open>JavaScript values\<close>

text \<open>
  The scalar values that occur as fields of a user object and as cells of a sheet.
  \<open>Undefined\<close> also stands for a missing property. Numbers are restricted to integers.
\<close>

datatype prim = Undefined | Null | Bool bool | Num int | Str string

text \<open>JavaScript truthiness, as used by \<open>!x\<close> and \<open>x && y\<close>.\<close>

fun truthy :: "prim \<Rightarrow> bool" where
  "truthy Undefined = False"
| "truthy Null = False"
| "truthy (Bool b) = b"
| "truthy (Num n) = (n \<noteq> 0)"
| "truthy (Str s) = (s \<noteq> [])"

text \<open>
  A dynamically typed argument: either a scalar or an array of such arguments.
  \<open>validateData\<close> inspects its argument with \<open>Array.isArray\<close>, so the argument
  is modelled with this type.
\<close>

datatype jsval = Prim prim | Arr "jsval list"

fun isArray :: "jsval \<Rightarrow> bool" where
  "isArray (Arr _) = True"
| "isArray (Prim _) = False"

text \<open>\<open>row.length\<close> for an array; only evaluated on arrays by the code below.\<close>

fun arr_length :: "jsval \<Rightarrow> nat" where
  "arr_length (Arr xs) = length xs"
| "arr_length (Prim _) = 0"

text \<open>A two-dimensional array of scalars as a dynamic value.\<close>

definition rows_val :: "prim list list \<Rightarrow> jsval" where
  "rows_val rows = Arr (map (\<lambda>row. Arr (map Prim row)) rows)"

text \<open>\<open>row[i]\<close>: reading past the end of an array gives \<open>undefined\<close>.\<close>

definition at_index :: "prim list \<Rightarrow> nat \<Rightarrow> prim" where
  "at_index row i = (if i < length row then row ! i else Undefined)"

section \<open>Errors\<close>

text \<open>
  One constructor per \<open>throw\<close> site of \<open>main.js\<close>, named after its message;
  \<open>TypeError\<close> is the error the JavaScript runtime raises when a property of
  \<open>undefined\<close> is read; \<open>TransportError\<close> is an exception raised by the HTTP
  service itself.
\<close>

datatype error =
    ChannelIdInvalid
  | UserIdInvalid
  | SlackApiError string
  | TransportError string
  | DataNot2D
  | RowLengthMismatch
  | InvalidUserObject
  | DisplayNameNotFound
  | InvalidDisplayNameFormat string
  | TypeError

section \<open>The user object\<close>

text \<open>
  \<open>{ userId, name: { id, name } }\<close>. The inner object is \<open>ident\<close>; a user whose
  \<open>name\<close> property is missing has \<open>uname = None\<close>.
\<close>

record ident =
  ident_id :: prim
  ident_name :: prim

record user =
  userId :: prim
  uname :: "ident option"

section \<open>class SlackApi\<close>

text \<open>
  The HTTP service (\<open>UrlFetchApp.fetch\<close> followed by \<open>JSON.parse\<close>) is a parameter:
  a function from the request and the state of the outside world \<open>'w\<close> to the parsed
  response, or an exception, and the next state of the world.
\<close>

record req =
  endpoint :: string
  http_method :: string
  params :: "(string \<times> string) list"

record slack_profile =
  display_name :: "string option"

record slack_user =
  slack_id :: prim
  profile :: "slack_profile option"

record response =
  resp_ok :: bool
  resp_error :: string
  resp_members :: "string list"
  next_cursor :: "string option"
  resp_user :: "slack_user option"

type_synonym 'w fetch = "req \<Rightarrow> 'w \<Rightarrow> (error + response) \<times> 'w"

text \<open>
  \<open>next_cursor r\<close> is \<open>response.response_metadata?.next_cursor\<close>: \<open>None\<close> when
  the metadata or the cursor is missing. A cursor is truthy when it is a non-empty string.
\<close>

fun truthy_cursor :: "string option \<Rightarrow> bool" where
  "truthy_cursor None = False"
| "truthy_cursor (Some c) = (c \<noteq> [])"

definition request :: "'w fetch \<Rightarrow> string \<Rightarrow> string \<Rightarrow> (string \<times> string) list \<Rightarrow> 'w
    \<Rightarrow> (error + response) \<times> 'w" where
  "request fetch ep method ps w =
     (case fetch \<lparr>endpoint = ep, http_method = method, params = ps\<rparr> w of
        (Inl e, w') \<Rightarrow> (Inl e, w')
      | (Inr result, w') \<Rightarrow>
          if \<not> resp_ok result then (Inl (SlackApiError (resp_error result)), w')
          else (Inr result, w'))"

text \<open>The parameters of one \<open>conversations.members\<close> call.\<close>

definition members_params :: "string \<Rightarrow> string option \<Rightarrow> (string \<times> string) list" where
  "members_params channelId nextCursor =
     [(''channel'', channelId), (''limit'', ''200'')] @
     (case nextCursor of
        None \<Rightarrow> []
      | Some c \<Rightarrow> if c \<noteq> [] then [(''cursor'', c)] else [])"

text \<open>
  The \<open>do ... while (nextCursor)\<close> loop of \<open>listUsersInChannel\<close>. It need not
  terminate: \<open>None\<close> is the run that never returns.
\<close>

partial_function (option) members_loop ::
  "'w fetch \<Rightarrow> string \<Rightarrow> string option \<Rightarrow> string list \<Rightarrow> 'w
     \<Rightarrow> ((error + string list) \<times> 'w) option" where
  "members_loop fetch channelId nextCursor members w =
     (case request fetch ''conversations.members'' ''GET''
             (members_params channelId nextCursor) w of
        (Inl e, w') \<Rightarrow> Some (Inl e, w')
      | (Inr response, w') \<Rightarrow>
          if truthy_cursor (next_cursor response)
          then members_loop fetch channelId (next_cursor response)
                 (members @ resp_members response) w'
          else Some (Inr (members @ resp_members response), w'))"

definition listUsersInChannel ::
  "'w fetch \<Rightarrow> string \<Rightarrow> 'w \<Rightarrow> ((error + string list) \<times> 'w) option" where
  "listUsersInChannel fetch channelId w =
     (if channelId = [] then Some (Inl ChannelIdInvalid, w)
      else members_loop fetch channelId None [] w)"

definition userInfo ::
  "'w fetch \<Rightarrow> string \<Rightarrow> 'w \<Rightarrow> (error + slack_user option) \<times> 'w" where
  "userInfo fetch uid w =
     (if uid = [] then (Inl UserIdInvalid, w)
      else (case request fetch ''users.info'' ''GET'' [(''user'', uid)] w of
              (Inl e, w') \<Rightarrow> (Inl e, w')
            | (Inr response, w') \<Rightarrow> (Inr (resp_user response), w')))"

section \<open>class SpreadSheetApi\<close>

text \<open>
  Modelled from the spec: the spreadsheet service (\<open>SpreadsheetApp\<close>) is not part of
  the repository. Following section 6 of the specification it is a store of named tables
  with create-if-absent, full-contents read, full-contents clear, append of one row and
  bulk-set of a block of rows from a given row on. A sheet is the list of its rows and
  a cell keeps the value written to it.
\<close>

type_synonym sheet = "prim list list"

type_synonym spreadsheet = "string \<Rightarrow> sheet option"

definition sheet_of :: "spreadsheet \<Rightarrow> string \<Rightarrow> sheet" where
  "sheet_of ss sheetName = (case ss sheetName of None \<Rightarrow> [] | Some s \<Rightarrow> s)"

text \<open>Modelled from the spec: \<open>sheet.clear()\<close> removes all contents.\<close>

definition sheet_clear :: "sheet \<Rightarrow> sheet" where
  "sheet_clear s = []"

text \<open>Modelled from the spec: \<open>sheet.appendRow(row)\<close> adds a row after the last one.\<close>

definition sheet_appendRow :: "prim list \<Rightarrow> sheet \<Rightarrow> sheet" where
  "sheet_appendRow row s = s @ [row]"

text \<open>
  Modelled from the spec: \<open>sheet.getRange(r, 1, n, m).setValues(vals)\<close> with
  \<open>n = length vals\<close> replaces the rows \<open>r, ..., r + n - 1\<close> (rows count from 1).
\<close>

definition sheet_setValues :: "nat \<Rightarrow> prim list list \<Rightarrow> sheet \<Rightarrow> sheet" where
  "sheet_setValues r vals s = take (r - 1) s @ vals @ drop (r - 1 + length vals) s"

text \<open>
  Modelled from the spec: \<open>sheet.getDataRange().getValues()\<close> reads the full contents;
  the data range of an empty sheet is the single empty cell \<open>A1\<close>.
\<close>

definition sheet_getValues :: "sheet \<Rightarrow> prim list list" where
  "sheet_getValues s = (if s = [] then [[Str []]] else s)"

text \<open>\<open>getOrCreateSheet\<close>: the sheet is identified by its name. (Lines 157-163.)\<close>

definition getOrCreateSheet :: "string \<Rightarrow> spreadsheet \<Rightarrow> spreadsheet" where
  "getOrCreateSheet sheetName ss =
     (case ss sheetName of None \<Rightarrow> ss(sheetName \<mapsto> []) | Some _ \<Rightarrow> ss)"

text \<open>
  \<open>validateData\<close> (lines 170-179). For the empty array \<open>data[0]\<close> is \<open>undefined\<close>
  and reading its \<open>length\<close> raises a \<open>TypeError\<close>.
\<close>

definition validateData :: "jsval \<Rightarrow> error + unit" where
  "validateData data =
     (case data of
        Prim _ \<Rightarrow> Inl DataNot2D
      | Arr rows \<Rightarrow>
          if \<not> list_all isArray rows then Inl DataNot2D
          else (case rows of
                  [] \<Rightarrow> Inl TypeError
                | row0 # _ \<Rightarrow>
                    if \<not> list_all (\<lambda>row. arr_length row = arr_length row0) rows
                    then Inl RowLengthMismatch
                    else Inr ()))"

text \<open>
  \<open>writeMapToSheet\<close> (lines 186-205). The argument is typed as an array of arrays of
  scalars, and is handed to \<open>validateData\<close> as a dynamic value.
\<close>

definition writeMapToSheet ::
  "prim list list \<Rightarrow> string \<Rightarrow> spreadsheet \<Rightarrow> (error + unit) \<times> spreadsheet" where
  "writeMapToSheet data sheetName ss =
     (case validateData (rows_val data) of
        Inl e \<Rightarrow> (Inl e, ss)
      | Inr _ \<Rightarrow>
          (let ss1 = getOrCreateSheet sheetName ss;
               s1 = sheet_clear (sheet_of ss1 sheetName)
           in case data of
                [] \<Rightarrow> (Inr (), ss1(sheetName \<mapsto> s1))
              | header # rest \<Rightarrow>
                  (let s2 = sheet_appendRow header s1;
                       s3 = (if length data > 1 then sheet_setValues 2 rest s2 else s2)
                   in (Inr (), ss1(sheetName \<mapsto> s3)))))"

text \<open>The loop of \<open>writeUsersToSheet\<close> (lines 220-228): invalid users are skipped.\<close>

fun push_user_rows :: "user list \<Rightarrow> prim list list \<Rightarrow> prim list list" where
  "push_user_rows [] rows = rows"
| "push_user_rows (u # users) rows =
     (case uname u of
        None \<Rightarrow> push_user_rows users rows
      | Some n \<Rightarrow>
          if \<not> truthy (userId u) \<or> \<not> truthy (ident_id n) \<or> \<not> truthy (ident_name n)
          then push_user_rows users rows
          else push_user_rows users (rows @ [[userId u, ident_id n, ident_name n]]))"

definition user_rows :: "user list \<Rightarrow> prim list list" where
  "user_rows users = push_user_rows users [[Str ''userId'', Str ''id'', Str ''name'']]"

definition writeUsersToSheet ::
  "user list \<Rightarrow> spreadsheet \<Rightarrow> (error + unit) \<times> spreadsheet" where
  "writeUsersToSheet users ss = writeMapToSheet (user_rows users) ''users'' ss"

text \<open>
  A user that the loop does not skip, and the row pushed for it. (The row of a user
  without \<open>name\<close> is never pushed.)
\<close>

definition valid_user :: "user \<Rightarrow> bool" where
  "valid_user u =
     (truthy (userId u) \<and>
      (case uname u of None \<Rightarrow> False | Some n \<Rightarrow> truthy (ident_id n) \<and> truthy (ident_name n)))"

definition user_row :: "user \<Rightarrow> prim list" where
  "user_row u =
     (case uname u of
        None \<Rightarrow> [userId u, Undefined, Undefined]
      | Some n \<Rightarrow> [userId u, ident_id n, ident_name n])"

text \<open>\<open>readUsersFromSheet\<close> (lines 237-251).\<close>

definition row_user :: "prim list \<Rightarrow> user" where
  "row_user row =
     \<lparr>userId = at_index row 0,
      uname = Some \<lparr>ident_id = at_index row 1, ident_name = at_index row 2\<rparr>\<rparr>"

definition readUsersFromSheet :: "spreadsheet \<Rightarrow> user list \<times> spreadsheet" where
  "readUsersFromSheet ss =
     (let ss1 = getOrCreateSheet ''users'' ss;
          rows = sheet_getValues (sheet_of ss1 ''users'')
      in if length rows \<le> 1 then ([], ss1)
         else (map row_user (drop 1 rows), ss1))"

section \<open>class User\<close>

text \<open>
  \<open>s.split(sep)\<close> for a separator of one character, generalised to a class of
  separator characters: a string with \<open>n\<close> separators has \<open>n + 1\<close> tokens.
\<close>

fun split_where :: "(char \<Rightarrow> bool) \<Rightarrow> string \<Rightarrow> string list" where
  "split_where sep [] = [[]]"
| "split_where sep (c # cs) =
     (if sep c then [] # split_where sep cs
      else (case split_where sep cs of
              [] \<Rightarrow> [[c]]
            | t # ts \<Rightarrow> (c # t) # ts))"

definition split_space :: "string \<Rightarrow> string list" where
  "split_space s = split_where (\<lambda>c. c = CHR '' '') s"

text \<open>\<open>User.parseFromSlackUser\<close> (lines 276-294).\<close>

definition parseFromSlackUser :: "slack_user option \<Rightarrow> error + user" where
  "parseFromSlackUser u =
     (case u of
        None \<Rightarrow> Inl InvalidUserObject
      | Some su \<Rightarrow>
          (case profile su of
             None \<Rightarrow> Inl InvalidUserObject
           | Some p \<Rightarrow>
               (case display_name p of
                  None \<Rightarrow> Inl DisplayNameNotFound
                | Some displayName \<Rightarrow>
                    if displayName = [] then Inl DisplayNameNotFound
                    else (case split_space displayName of
                            [] \<Rightarrow> Inl (InvalidDisplayNameFormat displayName)
                          | [i] \<Rightarrow> Inl (InvalidDisplayNameFormat displayName)
                          | i # n # others \<Rightarrow>
                              if i = [] \<or> n = [] \<or> length others > 0
                              then Inl (InvalidDisplayNameFormat displayName)
                              else Inr \<lparr>userId = slack_id su,
                                        uname = Some \<lparr>ident_id = Str i,
                                                      ident_name = Str n\<rparr>\<rparr>))))"

text \<open>
  The reading of the specification's words "whitespace-separated tokens": the string is
  cut at every whitespace character (space, tab, line feed, vertical tab, form feed,
  carriage return).
\<close>

definition is_whitespace :: "char \<Rightarrow> bool" where
  "is_whitespace c = (c \<in> {CHR '' '', CHR 0x09, CHR 0x0A, CHR 0x0B, CHR 0x0C, CHR 0x0D})"

definition spec_whitespace_tokens :: "string \<Rightarrow> string list" where
  "spec_whitespace_tokens s = split_where is_whitespace s"

text \<open>A raw source record whose profile carries the given display name.\<close>

definition raw_record :: "prim \<Rightarrow> string \<Rightarrow> slack_user option" where
  "raw_record uid raw = Some \<lparr>slack_id = uid, profile = Some \<lparr>display_name = Some raw\<rparr>\<rparr>"

section \<open>fetchAndParseUsers\<close>

text \<open>The body of the \<open>try\<close> block (lines 323-324).\<close>

definition try_user :: "'w fetch \<Rightarrow> string \<Rightarrow> 'w \<Rightarrow> (error + user) \<times> 'w" where
  "try_user fetch uid w =
     (case userInfo fetch uid w of
        (Inl e, w') \<Rightarrow> (Inl e, w')
      | (Inr info, w') \<Rightarrow> (parseFromSlackUser info, w'))"

text \<open>
  The \<open>for\<close> loop (lines 321-332) with its two accumulators: the \<open>catch\<close> clause
  turns every error of the body into an entry of \<open>errors\<close>.
\<close>

fun users_loop ::
  "'w fetch \<Rightarrow> string list \<Rightarrow> user list \<Rightarrow> (string \<times> error) list \<Rightarrow> 'w
     \<Rightarrow> (error + user list \<times> (string \<times> error) list) \<times> 'w" where
  "users_loop fetch [] users errors w = (Inr (users, errors), w)"
| "users_loop fetch (uid # rest) users errors w =
     (case try_user fetch uid w of
        (Inr parsedUser, w') \<Rightarrow> users_loop fetch rest (users @ [parsedUser]) errors w'
      | (Inl e, w') \<Rightarrow> users_loop fetch rest users (errors @ [(uid, e)]) w')"

definition fetchAndParseUsers ::
  "'w fetch \<Rightarrow> string \<Rightarrow> 'w \<Rightarrow> ((error + user list) \<times> 'w) option" where
  "fetchAndParseUsers fetch channelId w =
     (case listUsersInChannel fetch channelId w of
        None \<Rightarrow> None
      | Some (Inl e, w1) \<Rightarrow> Some (Inl e, w1)
      | Some (Inr userIds, w1) \<Rightarrow>
          (case users_loop fetch userIds [] [] w1 of
             (Inl e, w2) \<Rightarrow> Some (Inl e, w2)
           | (Inr (users, errors), w2) \<Rightarrow> Some (Inr users, w2)))"

text \<open>
  What each identifier of a sequence leads to, in order, when the detail of each is
  fetched and parsed in turn.
\<close>

fun outcomes :: "'w fetch \<Rightarrow> string list \<Rightarrow> 'w \<Rightarrow> (string \<times> (error + user)) list \<times> 'w" where
  "outcomes fetch [] w = ([], w)"
| "outcomes fetch (uid # rest) w =
     (let (r, w') = try_user fetch uid w;
          (rs, w'') = outcomes fetch rest w'
      in ((uid, r) # rs, w''))"

fun successes :: "(string \<times> (error + user)) list \<Rightarrow> user list" where
  "successes [] = []"
| "successes ((uid, Inr u) # rs) = u # successes rs"
| "successes ((uid, Inl e) # rs) = successes rs"

fun failures :: "(string \<times> (error + user)) list \<Rightarrow> (string \<times> error) list" where
  "failures [] = []"
| "failures ((uid, Inr u) # rs) = failures rs"
| "failures ((uid, Inl e) # rs) = (uid, e) # failures rs"

text \<open>
  A source serves the pages \<open>ps\<close> for a channel: asked with no cursor it answers with the
  first page, asked with the cursor of a page it answers with the next one, every page
  but the last carries a non-empty cursor and the last one carries none (or the empty
  string). \<open>w_end\<close> is the state of the world after the last answer.
\<close>

fun serves ::
  "'w fetch \<Rightarrow> string \<Rightarrow> string option \<Rightarrow> 'w \<Rightarrow> response list \<Rightarrow> 'w \<Rightarrow> bool" where
  "serves fetch channelId cur w [] w_end = False"
| "serves fetch channelId cur w (p # ps) w_end =
     (case fetch \<lparr>endpoint = ''conversations.members'', http_method = ''GET'',
                  params = members_params channelId cur\<rparr> w of
        (Inl e, w') \<Rightarrow> False
      | (Inr r, w') \<Rightarrow>
          r = p \<and> resp_ok p \<and>
          (if truthy_cursor (next_cursor p)
           then serves fetch channelId (next_cursor p) w' ps w_end
           else ps = [] \<and> w_end = w'))"

section \<open>mergeAndUpdateUsers\<close>

text \<open>
  A JavaScript \<open>Map\<close> is the list of its entries in insertion order. \<open>Map_set\<close>
  replaces the value of a key that is present, in place, and adds a new key at the end.
  Keys are scalars, on which the equality of \<open>Map\<close> keys is equality of values.
\<close>

fun Map_set :: "'k \<Rightarrow> 'v \<Rightarrow> ('k \<times> 'v) list \<Rightarrow> ('k \<times> 'v) list" where
  "Map_set k v [] = [(k, v)]"
| "Map_set k v ((k', v') # m) =
     (if k' = k then (k', v) # m else (k', v') # Map_set k v m)"

definition Map_values :: "('k \<times> 'v) list \<Rightarrow> 'v list" where
  "Map_values m = map snd m"

text \<open>The \<open>reduce\<close> of lines 351-354 and \<open>Array.from(uniqueUsers.values())\<close>.\<close>

definition uniqueUsers :: "user list \<Rightarrow> user list \<Rightarrow> (prim \<times> user) list" where
  "uniqueUsers existingUsers newUsers =
     foldl (\<lambda>acc u. Map_set (userId u) u acc) [] (existingUsers @ newUsers)"

definition mergedUsers :: "user list \<Rightarrow> user list \<Rightarrow> user list" where
  "mergedUsers existingUsers newUsers = Map_values (uniqueUsers existingUsers newUsers)"

definition mergeAndUpdateUsers ::
  "user list \<Rightarrow> spreadsheet \<Rightarrow> (error + user list) \<times> spreadsheet" where
  "mergeAndUpdateUsers newUsers ss =
     (let (existingUsers, ss1) = readUsersFromSheet ss;
          merged = mergedUsers existingUsers newUsers
      in case writeUsersToSheet merged ss1 of
           (Inl e, ss2) \<Rightarrow> (Inl e, ss2)
         | (Inr _, ss2) \<Rightarrow> (Inr merged, ss2))"

text \<open>The last element of a list of users that has the given key, if any.\<close>

definition last_with :: "prim \<Rightarrow> user list \<Rightarrow> user option" where
  "last_with k us = find (\<lambda>u. userId u = k) (rev us)"

text \<open>The elements of a list in the order of their first occurrences.\<close>

fun firsts :: "'a list \<Rightarrow> 'a list" where
  "firsts [] = []"
| "firsts (x # xs) = x # filter (\<lambda>y. y \<noteq> x) (firsts xs)"

text \<open>A stored user, replaced by the last fetched user with the same id if there is one.\<close>

definition overlay :: "user list \<Rightarrow> user \<Rightarrow> user" where
  "overlay nw u = (case last_with (userId u) nw of Some v \<Rightarrow> v | None \<Rightarrow> u)"

text \<open>The function that \<open>reduce\<close> folds over the users.\<close>

abbreviation (input) step :: "(prim \<times> user) list \<Rightarrow> user \<Rightarrow> (prim \<times> user) list" where
  "step \<equiv> (\<lambda>acc u. Map_set (userId u) u acc)"

text \<open>Every entry of the map is stored under the user id of its user.\<close>

definition keyed :: "(prim \<times> user) list \<Rightarrow> bool" where
  "keyed m = list_all (\<lambda>(k, u). k = userId u) m"

section \<open>Auxiliary definitions for the statements\<close>

text \<open>The error \<open>parseFromSlackUser\<close> raises for a display name it rejects.\<close>

definition format_error :: "string \<Rightarrow> error" where
  "format_error raw = (if raw = [] then DisplayNameNotFound else InvalidDisplayNameFormat raw)"

text \<open>
  A source with three pages of two identifiers and the cursors \<open>c1\<close>, \<open>c2\<close> and
  none; the state of the world is the list of the requests received so far.
\<close>

definition three_pages :: "response list" where
  "three_pages =
     [\<lparr>resp_ok = True, resp_error = [], resp_members = [''U1'', ''U2''],
         next_cursor = Some ''c1'', resp_user = None\<rparr>,
      \<lparr>resp_ok = True, resp_error = [], resp_members = [''U3'', ''U4''],
         next_cursor = Some ''c2'', resp_user = None\<rparr>,
      \<lparr>resp_ok = True, resp_error = [], resp_members = [''U5'', ''U6''],
         next_cursor = None, resp_user = None\<rparr>]"

definition three_page_source :: "req list fetch" where
  "three_page_source r log =
     (Inr (if params r = members_params ''C1'' None then three_pages ! 0
           else if params r = members_params ''C1'' (Some ''c1'') then three_pages ! 1
           else three_pages ! 2),
      log @ [r])"

definition three_requests :: "req list" where
  "three_requests =
     map (\<lambda>c. \<lparr>endpoint = ''conversations.members'', http_method = ''GET'',
                 params = members_params ''C1'' c\<rparr>)
       [None, Some ''c1'', Some ''c2'']"

text \<open>
  A source with the three identifiers \<open>U1\<close>, \<open>U2\<close>, \<open>U3\<close> in one page (its cursor
  is the empty string) whose detail call fails for \<open>U2\<close>; the state of the world
  counts the requests.
\<close>

definition ok_response :: response where
  "ok_response = \<lparr>resp_ok = True, resp_error = [], resp_members = [],
                   next_cursor = None, resp_user = None\<rparr>"

definition detail_response :: "string \<Rightarrow> string \<Rightarrow> response" where
  "detail_response uid dn =
     ok_response\<lparr>resp_user := Some \<lparr>slack_id = Str uid,
                                     profile = Some \<lparr>display_name = Some dn\<rparr>\<rparr>\<rparr>"

definition failing_source :: "nat fetch" where
  "failing_source r n =
     (Inr (if endpoint r = ''conversations.members''
           then ok_response\<lparr>resp_members := [''U1'', ''U2'', ''U3''], next_cursor := Some []\<rparr>
           else if params r = [(''user'', ''U1'')] then detail_response ''U1'' ''a Alice''
           else if params r = [(''user'', ''U3'')] then detail_response ''U3'' ''c Carol''
           else ok_response\<lparr>resp_ok := False, resp_error := ''user_not_found''\<rparr>),
      Suc n)"

section \<open>Writing and reading the users sheet\<close>

lemma push_user_rows_eq:
  "push_user_rows users rows = rows @ map user_row (filter valid_user users)"
  by (induction users arbitrary: rows)
     (auto simp: valid_user_def user_row_def split: option.splits)

lemma user_rows_eq:
  "user_rows users =
     [Str ''userId'', Str ''id'', Str ''name''] # map user_row (filter valid_user users)"
  by (simp add: user_rows_def push_user_rows_eq)

lemma length_user_row: "length (user_row u) = 3"
  by (simp add: user_row_def split: option.splits)

lemma validateData_rows:
  "validateData (rows_val rows) =
     (case rows of
        [] \<Rightarrow> Inl TypeError
      | row0 # _ \<Rightarrow>
          if list_all (\<lambda>row. length row = length row0) rows then Inr ()
          else Inl RowLengthMismatch)"
  by (cases rows) (simp_all add: validateData_def rows_val_def list_all_iff)

lemma validateData_user_rows: "validateData (rows_val (user_rows users)) = Inr ()"
  by (simp add: validateData_rows user_rows_eq list_all_iff length_user_row)

text \<open>A write of validated rows replaces the whole contents of the sheet by the rows.\<close>

lemma writeMapToSheet_ok:
  "validateData (rows_val data) = Inr () \<Longrightarrow>
     writeMapToSheet data sheetName ss =
       (Inr (), (getOrCreateSheet sheetName ss)(sheetName \<mapsto> data))"
  by (cases data)
     (auto simp: writeMapToSheet_def Let_def sheet_clear_def sheet_appendRow_def
        sheet_setValues_def validateData_rows)

lemma writeUsersToSheet_eq:
  "writeUsersToSheet users ss =
     (Inr (), (getOrCreateSheet ''users'' ss)(''users'' \<mapsto> user_rows users))"
  by (simp add: writeUsersToSheet_def writeMapToSheet_ok validateData_user_rows)

lemma row_user_user_row: "valid_user u \<Longrightarrow> row_user (user_row u) = u"
  by (cases "uname u") (auto simp: valid_user_def row_user_def user_row_def at_index_def)

lemma readUsersFromSheet_stored:
  "ss ''users'' = Some (header # rows) \<Longrightarrow>
     readUsersFromSheet ss = (map row_user rows, ss)"
  by (cases rows)
     (auto simp: readUsersFromSheet_def getOrCreateSheet_def sheet_of_def
        sheet_getValues_def Let_def)

text \<open>
  Apart from the empty array, \<open>validateData\<close> raises its first error when an element
  is not an array, its second when a row is not as long as the first, and accepts
  every other input.
\<close>

lemma validateData_nonempty:
  "rows \<noteq> [] \<Longrightarrow>
   validateData (Arr rows) =
     (if \<not> list_all isArray rows then Inl DataNot2D
      else if \<not> list_all (\<lambda>row. arr_length row = arr_length (hd rows)) rows
      then Inl RowLengthMismatch
      else Inr ())"
  by (cases rows) (simp_all add: validateData_def)

lemma validateData_examples:
  "validateData (Arr [Arr [Prim (Str ''a''), Prim (Str ''b'')], Arr [Prim (Str ''c'')]])
     = Inl RowLengthMismatch"
  "validateData (Arr [Arr [Prim (Str ''a'')]]) = Inr ()"
  "validateData (Arr [Arr [Prim (Str ''a'')], Prim (Str ''c'')]) = Inl DataNot2D"
  by (simp_all add: validateData_def)

text \<open>
  Claim C5. For every sequence of valid members (user id, short id and display name all
  non-empty), \<open>writeUsersToSheet\<close> succeeds and \<open>readUsersFromSheet\<close> on the sheet
  it leaves returns the same members: the same sequence, hence the same set, whatever
  the order of the input and whatever the spreadsheet held before.
\<close>

theorem write_read_round_trip:
  assumes "list_all valid_user users"
  shows "fst (writeUsersToSheet users ss) = Inr () \<and>
         fst (readUsersFromSheet (snd (writeUsersToSheet users ss))) = users \<and>
         set (fst (readUsersFromSheet (snd (writeUsersToSheet users ss)))) = set users"
proof -
  have f: "filter valid_user users = users"
    using assms by (simp add: list_all_iff)
  have "map row_user (map user_row users) = users"
    using assms by (induction users) (simp_all add: row_user_user_row)
  then show ?thesis
    by (simp add: writeUsersToSheet_eq user_rows_eq f
        readUsersFromSheet_stored [where header = "[Str ''userId'', Str ''id'', Str ''name'']"
          and rows = "map user_row users"])
qed

theorem write_read_round_trip_witness:
  "list_all valid_user
     [\<lparr>userId = Str ''U2'', uname = Some \<lparr>ident_id = Str ''b'', ident_name = Str ''Bob''\<rparr>\<rparr>,
      \<lparr>userId = Str ''U1'', uname = Some \<lparr>ident_id = Str ''a'', ident_name = Str ''Alice''\<rparr>\<rparr>] \<and>
   fst (readUsersFromSheet (snd (writeUsersToSheet
     [\<lparr>userId = Str ''U2'', uname = Some \<lparr>ident_id = Str ''b'', ident_name = Str ''Bob''\<rparr>\<rparr>,
      \<lparr>userId = Str ''U1'', uname = Some \<lparr>ident_id = Str ''a'', ident_name = Str ''Alice''\<rparr>\<rparr>]
     Map.empty))) =
     [\<lparr>userId = Str ''U2'', uname = Some \<lparr>ident_id = Str ''b'', ident_name = Str ''Bob''\<rparr>\<rparr>,
      \<lparr>userId = Str ''U1'', uname = Some \<lparr>ident_id = Str ''a'', ident_name = Str ''Alice''\<rparr>\<rparr>]"
proof -
  have v: "list_all valid_user
     [\<lparr>userId = Str ''U2'', uname = Some \<lparr>ident_id = Str ''b'', ident_name = Str ''Bob''\<rparr>\<rparr>,
      \<lparr>userId = Str ''U1'', uname = Some \<lparr>ident_id = Str ''a'', ident_name = Str ''Alice''\<rparr>\<rparr>]"
    by (simp add: valid_user_def)
  show ?thesis
    using v write_read_round_trip [OF v, of Map.empty] by blast
qed

text \<open>
  Claim C6. The claim says that \<open>validate([])\<close> succeeds. In the code
  \<open>validateData([])\<close> passes the first check and then reads \<open>data[0].length\<close>, where
  \<open>data[0]\<close> is \<open>undefined\<close>: it raises a \<open>TypeError\<close>.
\<close>

theorem validateData_empty_raises: "validateData (Arr []) = Inl TypeError"
  by (simp add: validateData_def)

text \<open>
  Claim C7. The claim says that a write of an empty sequence of rows clears the table
  and returns without error. In the code \<open>writeMapToSheet([], name)\<close> raises the
  \<open>TypeError\<close> of \<open>validateData\<close> before the sheet is looked up or cleared: the
  spreadsheet is left as it was.
\<close>

theorem writeMapToSheet_empty_raises:
  "writeMapToSheet [] sheetName ss = (Inl TypeError, ss)"
  by (simp add: writeMapToSheet_def validateData_def rows_val_def)

text \<open>
  Claim C10. For every sequence of users, with or without missing fields, the rows built
  by \<open>writeUsersToSheet\<close> are the header and one row per valid user, every row has
  length 3, \<open>validateData\<close> accepts them, and \<open>writeUsersToSheet\<close> raises no error.
\<close>

theorem writeUsersToSheet_rows_rectangular:
  "list_all (\<lambda>row. length row = 3) (user_rows users) \<and>
   length (user_rows users) = 1 + length (filter valid_user users) \<and>
   validateData (rows_val (user_rows users)) = Inr () \<and>
   fst (writeUsersToSheet users ss) = Inr ()"
proof -
  have "list_all (\<lambda>row. length row = 3) (user_rows users)"
    by (simp add: user_rows_eq list_all_iff length_user_row)
  moreover have "length (user_rows users) = 1 + length (filter valid_user users)"
    by (simp add: user_rows_eq)
  moreover have "fst (writeUsersToSheet users ss) = Inr ()"
    by (simp add: writeUsersToSheet_eq)
  ultimately show ?thesis
    using validateData_user_rows [of users] by blast
qed

section \<open>Parsing display names\<close>

lemma split_where_not_Nil: "split_where sep s \<noteq> []"
  by (induction s) (auto split: list.splits)

lemma split_where_no_sep: "list_all (\<lambda>c. \<not> sep c) s \<Longrightarrow> split_where sep s = [s]"
  by (induction s) auto

lemma split_where_app:
  "list_all (\<lambda>c. \<not> sep c) a \<Longrightarrow> sep c \<Longrightarrow>
     split_where sep (a @ c # b) = a # split_where sep b"
  by (induction a) auto

lemma split_where_one:
  "split_where sep s = [t] \<Longrightarrow> s = t \<and> list_all (\<lambda>c. \<not> sep c) t"
proof (induction s arbitrary: t)
  case Nil
  then show ?case by auto
next
  case (Cons c cs)
  then show ?case
    by (cases "split_where sep cs") (auto simp: split_where_not_Nil split: if_splits)
qed

lemma split_where_two:
  "split_where sep s = [a, b] \<Longrightarrow>
     \<exists>c. sep c \<and> s = a @ c # b \<and> list_all (\<lambda>c. \<not> sep c) a \<and> list_all (\<lambda>c. \<not> sep c) b"
proof (induction s arbitrary: a)
  case Nil
  then show ?case by simp
next
  case (Cons x xs)
  show ?case
  proof (cases "sep x")
    case True
    with Cons.prems have "a = []" "split_where sep xs = [b]" by auto
    with True split_where_one [of sep xs b] show ?thesis by auto
  next
    case False
    with Cons.prems obtain t where t: "split_where sep xs = [t, b]" "a = x # t"
      by (cases "split_where sep xs") (auto split: if_splits)
    from Cons.IH [OF t(1)] False t(2) show ?thesis by auto
  qed
qed

lemma split_space_two_iff:
  "split_space raw = [a, b] \<longleftrightarrow>
     raw = a @ CHR '' '' # b \<and> CHR '' '' \<notin> set a \<and> CHR '' '' \<notin> set b"
proof
  assume "split_space raw = [a, b]"
  from split_where_two [OF this [unfolded split_space_def]]
  show "raw = a @ CHR '' '' # b \<and> CHR '' '' \<notin> set a \<and> CHR '' '' \<notin> set b"
    by (auto simp: list_all_iff)
next
  assume r: "raw = a @ CHR '' '' # b \<and> CHR '' '' \<notin> set a \<and> CHR '' '' \<notin> set b"
  then have "list_all (\<lambda>c. \<not> c = CHR '' '') a" "list_all (\<lambda>c. \<not> c = CHR '' '') b"
    by (auto simp: list_all_iff)
  then show "split_space raw = [a, b]"
    using r by (simp add: split_space_def split_where_app split_where_no_sep)
qed

lemma parse_split:
  "parseFromSlackUser (raw_record uid raw) =
     (case split_space raw of
        [a, b] \<Rightarrow>
          if a = [] \<or> b = [] then Inl (format_error raw)
          else Inr \<lparr>userId = uid, uname = Some \<lparr>ident_id = Str a, ident_name = Str b\<rparr>\<rparr>
      | _ \<Rightarrow> Inl (format_error raw))"
  by (auto simp: parseFromSlackUser_def raw_record_def format_error_def split_space_def
        split: list.splits)

lemma parse_Inr_iff:
  "parseFromSlackUser (raw_record uid raw) = Inr u \<longleftrightarrow>
     (\<exists>a b. raw = a @ CHR '' '' # b \<and> a \<noteq> [] \<and> b \<noteq> [] \<and>
            CHR '' '' \<notin> set a \<and> CHR '' '' \<notin> set b \<and>
            u = \<lparr>userId = uid, uname = Some \<lparr>ident_id = Str a, ident_name = Str b\<rparr>\<rparr>)"
proof
  assume p: "parseFromSlackUser (raw_record uid raw) = Inr u"
  then obtain a b where ab: "split_space raw = [a, b]" "a \<noteq> []" "b \<noteq> []"
     "u = \<lparr>userId = uid, uname = Some \<lparr>ident_id = Str a, ident_name = Str b\<rparr>\<rparr>"
    by (auto simp: parse_split split: list.splits if_splits)
  with split_space_two_iff [of raw a b] show "\<exists>a b. raw = a @ CHR '' '' # b \<and> a \<noteq> [] \<and> b \<noteq> [] \<and>
            CHR '' '' \<notin> set a \<and> CHR '' '' \<notin> set b \<and>
            u = \<lparr>userId = uid, uname = Some \<lparr>ident_id = Str a, ident_name = Str b\<rparr>\<rparr>"
    by blast
next
  assume "\<exists>a b. raw = a @ CHR '' '' # b \<and> a \<noteq> [] \<and> b \<noteq> [] \<and>
            CHR '' '' \<notin> set a \<and> CHR '' '' \<notin> set b \<and>
            u = \<lparr>userId = uid, uname = Some \<lparr>ident_id = Str a, ident_name = Str b\<rparr>\<rparr>"
  then obtain a b where ab: "raw = a @ CHR '' '' # b" "a \<noteq> []" "b \<noteq> []"
      "CHR '' '' \<notin> set a" "CHR '' '' \<notin> set b"
      "u = \<lparr>userId = uid, uname = Some \<lparr>ident_id = Str a, ident_name = Str b\<rparr>\<rparr>"
    by blast
  then have "split_space raw = [a, b]"
    by (simp add: split_space_two_iff)
  with ab show "parseFromSlackUser (raw_record uid raw) = Inr u"
    by (simp add: parse_split)
qed

text \<open>
  Claim C3, as stated. The claim speaks of whitespace-separated tokens. The display name
  \<open>a<TAB>b\<close> has exactly two non-empty whitespace-separated tokens, \<open>a\<close> and \<open>b\<close>,
  and \<open>parseFromSlackUser\<close> rejects it: the code splits at the space character only.
\<close>

theorem parse_tab_separated_rejected:
  "spec_whitespace_tokens [CHR ''a'', CHR 0x09, CHR ''b''] = [''a'', ''b''] \<and>
   parseFromSlackUser (raw_record (Str ''U1'') [CHR ''a'', CHR 0x09, CHR ''b'']) =
     Inl (InvalidDisplayNameFormat [CHR ''a'', CHR 0x09, CHR ''b''])"
  by (simp add: spec_whitespace_tokens_def is_whitespace_def parseFromSlackUser_def
        raw_record_def split_space_def)

text \<open>
  Claim C3, amended. For every raw display name, \<open>parseFromSlackUser\<close> succeeds exactly
  when splitting it at every space character (U+0020) yields exactly two tokens, both
  non-empty, and then returns the two tokens verbatim as \<open>id\<close> and \<open>name\<close>; for zero,
  one or more than two tokens, or an empty token, it raises an error. Equivalently it
  succeeds exactly on the strings \<open>a b\<close> with \<open>a\<close> and \<open>b\<close> non-empty and free of
  spaces. Other whitespace characters do not separate tokens.
\<close>

theorem parse_two_space_separated_tokens:
  "parseFromSlackUser (raw_record uid raw) =
     (case split_space raw of
        [a, b] \<Rightarrow>
          if a = [] \<or> b = [] then Inl (format_error raw)
          else Inr \<lparr>userId = uid, uname = Some \<lparr>ident_id = Str a, ident_name = Str b\<rparr>\<rparr>
      | _ \<Rightarrow> Inl (format_error raw)) \<and>
   (parseFromSlackUser (raw_record uid raw) = Inr u \<longleftrightarrow>
     (\<exists>a b. raw = a @ CHR '' '' # b \<and> a \<noteq> [] \<and> b \<noteq> [] \<and>
            CHR '' '' \<notin> set a \<and> CHR '' '' \<notin> set b \<and>
            u = \<lparr>userId = uid, uname = Some \<lparr>ident_id = Str a, ident_name = Str b\<rparr>\<rparr>))"
  using parse_split [of uid raw] parse_Inr_iff [of uid raw u] by blast

section \<open>Listing the members of a channel, fetching and parsing\<close>

lemma members_loop_serves:
  "serves fetch ch cur w ps w_end \<Longrightarrow>
     members_loop fetch ch cur acc w = Some (Inr (acc @ concat (map resp_members ps)), w_end)"
proof (induction ps arbitrary: cur acc w)
  case Nil
  then show ?case by simp
next
  case (Cons p ps)
  from Cons.prems obtain w' where
    f: "fetch \<lparr>endpoint = ''conversations.members'', http_method = ''GET'',
                params = members_params ch cur\<rparr> w = (Inr p, w')"
    and ok: "resp_ok p"
    and rest: "if truthy_cursor (next_cursor p) then serves fetch ch (next_cursor p) w' ps w_end
               else ps = [] \<and> w_end = w'"
    by (auto split: prod.splits sum.splits)
  show ?case
  proof (cases "truthy_cursor (next_cursor p)")
    case True
    with rest have "serves fetch ch (next_cursor p) w' ps w_end" by simp
    from Cons.IH [OF this] True f ok show ?thesis
      by (subst members_loop.simps) (simp add: request_def)
  next
    case False
    with rest f ok show ?thesis
      by (subst members_loop.simps) (simp add: request_def)
  qed
qed

lemma users_loop_outcomes:
  "users_loop fetch ids us es w =
     (Inr (us @ successes (fst (outcomes fetch ids w)), es @ failures (fst (outcomes fetch ids w))),
      snd (outcomes fetch ids w))"
  by (induction ids arbitrary: us es w) (auto split: prod.splits sum.splits)

lemma outcomes_ids: "map fst (fst (outcomes fetch ids w)) = ids"
  by (induction ids arbitrary: w) (simp_all add: case_prod_beta)

lemma length_successes_failures: "length (successes rs) + length (failures rs) = length rs"
  by (induction rs rule: successes.induct) auto

text \<open>A channel without members: one page, no identifier, no cursor, no error.\<close>

lemma listUsersInChannel_empty_scope:
  assumes "channelId \<noteq> []"
    and "fetch \<lparr>endpoint = ''conversations.members'', http_method = ''GET'',
                 params = members_params channelId None\<rparr> w = (Inr ok_response, w')"
  shows "listUsersInChannel fetch channelId w = Some (Inr [], w')"
proof -
  have "serves fetch channelId None w [ok_response] w'"
    using assms(2) by (simp add: ok_response_def)
  from members_loop_serves [OF this, of "[]"] assms(1) show ?thesis
    by (simp add: listUsersInChannel_def ok_response_def)
qed

text \<open>
  Claim C4. For every non-empty channel id and every source that serves the pages
  \<open>ps\<close> (each request after the first carries the cursor the previous page returned,
  and the last page is the first one without a cursor), \<open>listUsersInChannel\<close>
  terminates, has issued exactly these requests (the world is the one after the last
  page) and returns the identifiers of all pages, concatenated in order. A channel
  whose pages hold no identifier gives the empty sequence, not an error.
\<close>

theorem listUsersInChannel_all_pages:
  assumes "channelId \<noteq> []" and "serves fetch channelId None w ps w_end"
  shows "listUsersInChannel fetch channelId w =
           Some (Inr (concat (map resp_members ps)), w_end)"
  using assms members_loop_serves [of fetch channelId None w ps w_end "[]"]
  by (simp add: listUsersInChannel_def)

lemma three_page_source_serves:
  "serves three_page_source ''C1'' None [] three_pages three_requests"
  by (simp add: three_page_source_def three_pages_def three_requests_def members_params_def)

theorem listUsersInChannel_all_pages_witness:
  "''C1'' \<noteq> [] \<and>
   serves three_page_source ''C1'' None [] three_pages three_requests \<and>
   listUsersInChannel three_page_source ''C1'' [] =
     Some (Inr [''U1'', ''U2'', ''U3'', ''U4'', ''U5'', ''U6''], three_requests)"
proof -
  have n: "''C1'' \<noteq> []" by simp
  have c: "concat (map resp_members three_pages) = [''U1'', ''U2'', ''U3'', ''U4'', ''U5'', ''U6'']"
    by (simp add: three_pages_def)
  show ?thesis
    using n three_page_source_serves
      listUsersInChannel_all_pages [OF n three_page_source_serves] c
    by simp
qed

text \<open>
  Claim C2. Whenever the listing returns the identifiers \<open>userIds\<close>, the loop over them
  raises no error and runs through the whole sequence: one outcome per identifier, in
  order; the users returned are those of the identifiers whose fetch and parse
  succeeded, the error list holds each failure with its identifier, and
  \<open>fetchAndParseUsers\<close> returns these users.
\<close>

theorem fetchAndParseUsers_contains_failures:
  assumes "listUsersInChannel fetch channelId w = Some (Inr userIds, w1)"
  shows "users_loop fetch userIds [] [] w1 =
           (Inr (successes (fst (outcomes fetch userIds w1)),
                 failures (fst (outcomes fetch userIds w1))),
            snd (outcomes fetch userIds w1)) \<and>
         fetchAndParseUsers fetch channelId w =
           Some (Inr (successes (fst (outcomes fetch userIds w1))),
                 snd (outcomes fetch userIds w1)) \<and>
         map fst (fst (outcomes fetch userIds w1)) = userIds \<and>
         length (successes (fst (outcomes fetch userIds w1))) +
           length (failures (fst (outcomes fetch userIds w1))) = length userIds"
proof -
  have "length (successes (fst (outcomes fetch userIds w1))) +
           length (failures (fst (outcomes fetch userIds w1))) =
        length (map fst (fst (outcomes fetch userIds w1)))"
    by (simp add: length_successes_failures)
  then show ?thesis
    using assms
    by (simp add: fetchAndParseUsers_def users_loop_outcomes outcomes_ids)
qed

lemma failing_list:
  "listUsersInChannel failing_source ''C1'' 0 = Some (Inr [''U1'', ''U2'', ''U3''], 1)"
  by (simp add: listUsersInChannel_def)
     (subst members_loop.simps, simp add: request_def failing_source_def ok_response_def)

lemma failing_outcomes:
  "outcomes failing_source [''U1'', ''U2'', ''U3''] 1 =
     ([(''U1'', Inr \<lparr>userId = Str ''U1'', uname = Some \<lparr>ident_id = Str ''a'', ident_name = Str ''Alice''\<rparr>\<rparr>),
       (''U2'', Inl (SlackApiError ''user_not_found'')),
       (''U3'', Inr \<lparr>userId = Str ''U3'', uname = Some \<lparr>ident_id = Str ''c'', ident_name = Str ''Carol''\<rparr>\<rparr>)], 4)"
  by (simp add: try_user_def userInfo_def request_def failing_source_def ok_response_def
        detail_response_def parseFromSlackUser_def split_space_def)

theorem fetchAndParseUsers_contains_failures_witness:
  "listUsersInChannel failing_source ''C1'' 0 = Some (Inr [''U1'', ''U2'', ''U3''], 1) \<and>
   fetchAndParseUsers failing_source ''C1'' 0 =
     Some (Inr [\<lparr>userId = Str ''U1'', uname = Some \<lparr>ident_id = Str ''a'', ident_name = Str ''Alice''\<rparr>\<rparr>,
                \<lparr>userId = Str ''U3'', uname = Some \<lparr>ident_id = Str ''c'', ident_name = Str ''Carol''\<rparr>\<rparr>], 4) \<and>
   users_loop failing_source [''U1'', ''U2'', ''U3''] [] [] 1 =
     (Inr ([\<lparr>userId = Str ''U1'', uname = Some \<lparr>ident_id = Str ''a'', ident_name = Str ''Alice''\<rparr>\<rparr>,
            \<lparr>userId = Str ''U3'', uname = Some \<lparr>ident_id = Str ''c'', ident_name = Str ''Carol''\<rparr>\<rparr>],
           [(''U2'', SlackApiError ''user_not_found'')]), 4)"
  using failing_list fetchAndParseUsers_contains_failures [OF failing_list, unfolded failing_outcomes]
  by simp


section \<open>Merging\<close>

lemma Map_set_present: "k \<in> fst ` set m \<Longrightarrow> map fst (Map_set k v m) = map fst m"
  by (induction m) force+

lemma Map_set_absent: "k \<notin> fst ` set m \<Longrightarrow> Map_set k v m = m @ [(k, v)]"
  by (induction m) auto

lemma Map_set_keys:
  "map fst (Map_set k v m) = (if k \<in> set (map fst m) then map fst m else map fst m @ [k])"
  by (simp add: Map_set_present Map_set_absent)

lemma Map_set_map_of: "map_of (Map_set k v m) = (map_of m)(k \<mapsto> v)"
  by (induction m) (auto simp: fun_eq_iff)

lemma Map_set_same:
  "distinct (map fst m) \<Longrightarrow> (k, v) \<in> set m \<Longrightarrow> Map_set k v m = m"
  by (induction m) (auto simp: rev_image_eqI)

lemma keyed_Map_set: "keyed m \<Longrightarrow> keyed (Map_set (userId u) u m)"
  by (induction m) (auto simp: keyed_def)

lemma foldl_keyed: "keyed m \<Longrightarrow> keyed (foldl step m us)"
  by (induction us arbitrary: m) (auto simp: keyed_Map_set)

lemma find_app:
  "find P (xs @ ys) = (case find P xs of None \<Rightarrow> find P ys | Some x \<Rightarrow> Some x)"
  by (induction xs) auto

lemma last_with_Cons:
  "last_with k (u # us) = (case last_with k us of Some v \<Rightarrow> Some v
      | None \<Rightarrow> if userId u = k then Some u else None)"
  by (simp add: last_with_def find_app split: option.splits)

lemma last_with_append:
  "last_with k (us @ vs) = (case last_with k vs of Some v \<Rightarrow> Some v | None \<Rightarrow> last_with k us)"
  by (simp add: last_with_def find_app split: option.splits)

lemma foldl_map_of:
  "map_of (foldl step m us) k =
     (case last_with k us of Some u \<Rightarrow> Some u | None \<Rightarrow> map_of m k)"
proof (induction us arbitrary: m)
  case Nil
  then show ?case by (simp add: last_with_def)
next
  case (Cons u us)
  show ?case
    by (simp add: Cons.IH Map_set_map_of last_with_Cons split: option.splits)
qed

lemma set_firsts [simp]: "set (firsts xs) = set xs"
  by (induction xs) auto

lemma distinct_firsts [simp]: "distinct (firsts xs)"
  by (induction xs) auto

lemma firsts_distinct: "distinct xs \<Longrightarrow> firsts xs = xs"
  by (induction xs) (auto simp: filter_id_conv)

lemma firsts_append:
  "firsts (xs @ ys) = firsts xs @ filter (\<lambda>y. y \<notin> set xs) (firsts ys)"
proof (induction xs)
  case Nil
  show ?case by simp
next
  case (Cons x xs)
  have "filter (\<lambda>y. y \<noteq> x) (filter (\<lambda>y. y \<notin> set xs) (firsts ys))
      = filter (\<lambda>y. y \<noteq> x \<and> y \<notin> set xs) (firsts ys)"
    by (simp add: conj_commute)
  then show ?case by (simp add: Cons.IH)
qed

lemma foldl_keys:
  "map fst (foldl step m us) =
     map fst m @ filter (\<lambda>k. k \<notin> set (map fst m)) (firsts (map userId us))"
proof (induction us arbitrary: m)
  case Nil
  show ?case by simp
next
  case (Cons u us)
  show ?case
  proof (cases "userId u \<in> set (map fst m)")
    case True
    have "filter (\<lambda>k. k \<notin> set (map fst m)) (filter (\<lambda>y. y \<noteq> userId u) (firsts (map userId us)))
        = filter (\<lambda>k. k \<notin> set (map fst m)) (firsts (map userId us))"
      using True by (auto intro!: filter_cong)
    with True show ?thesis by (simp add: Cons.IH Map_set_keys)
  next
    case False
    have "filter (\<lambda>k. k \<noteq> userId u \<and> k \<notin> fst ` set m) (firsts (map userId us))
        = filter (\<lambda>k. k \<notin> fst ` set m) (filter (\<lambda>y. y \<noteq> userId u) (firsts (map userId us)))"
      by (auto intro!: filter_cong)
    with False show ?thesis by (simp add: Cons.IH Map_set_keys)
  qed
qed

lemma keyed_values_keys: "keyed m \<Longrightarrow> map userId (Map_values m) = map fst m"
  by (induction m) (auto simp: keyed_def Map_values_def)

lemma keyed_find:
  "keyed m \<Longrightarrow> find (\<lambda>u. userId u = k) (Map_values m) = map_of m k"
  by (induction m) (auto simp: keyed_def Map_values_def)

lemma uniqueUsers_keyed: "keyed (uniqueUsers ex nw)"
  unfolding uniqueUsers_def by (rule foldl_keyed) (simp add: keyed_def)

lemma mergedUsers_keys:
  "map userId (mergedUsers ex nw) = firsts (map userId (ex @ nw))"
  using foldl_keys [of "[]" "ex @ nw"]
  by (simp add: mergedUsers_def keyed_values_keys uniqueUsers_keyed)
     (simp add: uniqueUsers_def)

lemma mergedUsers_find:
  "find (\<lambda>u. userId u = k) (mergedUsers ex nw) =
     (case last_with k nw of Some u \<Rightarrow> Some u | None \<Rightarrow> last_with k ex)"
  using foldl_map_of [of "[]" "ex @ nw" k]
  by (simp add: mergedUsers_def keyed_find uniqueUsers_keyed)
     (simp add: uniqueUsers_def last_with_append split: option.splits)

lemma foldl_fresh:
  "distinct (map userId us) \<Longrightarrow> set (map userId us) \<inter> set (map fst m) = {} \<Longrightarrow>
     foldl step m us = m @ map (\<lambda>u. (userId u, u)) us"
proof (induction us arbitrary: m)
  case Nil
  show ?case by simp
next
  case (Cons u us)
  from Cons.prems have a: "userId u \<notin> fst ` set m" by auto
  from Cons.prems have "set (map userId us) \<inter> set (map fst (m @ [(userId u, u)])) = {}"
    by auto
  with Cons.prems Cons.IH [of "m @ [(userId u, u)]"] a show ?case
    by (simp add: Map_set_absent)
qed

lemma foldl_again:
  "distinct (map fst m) \<Longrightarrow> list_all (\<lambda>u. (userId u, u) \<in> set m) us \<Longrightarrow>
     foldl step m us = m"
  by (induction us) (simp_all add: Map_set_same)

lemma find_distinct_key:
  "distinct (map f xs) \<Longrightarrow> x \<in> set xs \<Longrightarrow> find (\<lambda>y. f y = f x) xs = Some x"
  by (induction xs) (auto simp: rev_image_eqI)

lemma mergedUsers_distinct: "distinct (map userId (mergedUsers ex nw))"
  by (simp add: mergedUsers_keys)

lemma mergedUsers_resolved:
  "list_all (\<lambda>u. Some u = (case last_with (userId u) nw of Some v \<Rightarrow> Some v
                              | None \<Rightarrow> last_with (userId u) ex))
     (mergedUsers ex nw)"
  unfolding list_all_iff
proof
  fix u assume "u \<in> set (mergedUsers ex nw)"
  then have "find (\<lambda>y. userId y = userId u) (mergedUsers ex nw) = Some u"
    by (rule find_distinct_key [OF mergedUsers_distinct])
  then show "Some u = (case last_with (userId u) nw of Some v \<Rightarrow> Some v
                              | None \<Rightarrow> last_with (userId u) ex)"
    by (simp add: mergedUsers_find)
qed

lemma find_Some_set: "find P xs = Some x \<Longrightarrow> P x \<and> x \<in> set xs"
  by (induction xs) (auto split: if_splits)

lemma last_with_key: "last_with k us = Some v \<Longrightarrow> userId v = k \<and> v \<in> set us"
  unfolding last_with_def using find_Some_set [of "\<lambda>u. userId u = k" "rev us" v] by simp

lemma last_with_distinct:
  "distinct (map userId us) \<Longrightarrow> u \<in> set us \<Longrightarrow> last_with (userId u) us = Some u"
  unfolding last_with_def
  by (rule find_distinct_key) (simp_all add: rev_map [symmetric])

lemma list_eq_by_keys:
  "map f xs = map f ys \<Longrightarrow> list_all (\<lambda>u. Some u = g (f u)) xs \<Longrightarrow>
     list_all (\<lambda>u. Some u = g (f u)) ys \<Longrightarrow> xs = ys"
proof (induction xs arbitrary: ys)
  case Nil
  then show ?case by simp
next
  case (Cons x xs)
  then obtain y ys' where ys: "ys = y # ys'" by (cases ys) auto
  with Cons.prems have "f x = f y" "Some x = g (f x)" "Some y = g (f y)" by auto
  then have "x = y" by (metis option.inject)
  with Cons ys show ?case by auto
qed

lemma userId_overlay: "userId (overlay nw u) = userId u"
  by (auto simp: overlay_def dest: last_with_key split: option.splits)

lemma merged_distinct_lists:
  assumes "distinct (map userId ex)" and "distinct (map userId nw)"
  shows "mergedUsers ex nw =
           map (overlay nw) ex @ filter (\<lambda>v. userId v \<notin> set (map userId ex)) nw"
proof (rule list_eq_by_keys [where f = userId and
      g = "\<lambda>k. case last_with k nw of Some v \<Rightarrow> Some v | None \<Rightarrow> last_with k ex"])
  show "map userId (mergedUsers ex nw) =
        map userId (map (overlay nw) ex @ filter (\<lambda>v. userId v \<notin> set (map userId ex)) nw)"
    using assms
    by (simp add: mergedUsers_keys firsts_append firsts_distinct filter_map comp_def userId_overlay)
  show "list_all (\<lambda>u. Some u = (case last_with (userId u) nw of Some v \<Rightarrow> Some v
                                   | None \<Rightarrow> last_with (userId u) ex)) (mergedUsers ex nw)"
    by (rule mergedUsers_resolved)
  show "list_all (\<lambda>u. Some u = (case last_with (userId u) nw of Some v \<Rightarrow> Some v
                                   | None \<Rightarrow> last_with (userId u) ex))
          (map (overlay nw) ex @ filter (\<lambda>v. userId v \<notin> set (map userId ex)) nw)"
  proof -
    have 1: "Some (overlay nw u) = (case last_with (userId (overlay nw u)) nw of Some v \<Rightarrow> Some v
                | None \<Rightarrow> last_with (userId (overlay nw u)) ex)" if "u \<in> set ex" for u
      using that assms(1)
      by (simp add: userId_overlay) (simp add: overlay_def last_with_distinct split: option.splits)
    have 2: "Some v = (case last_with (userId v) nw of Some v \<Rightarrow> Some v
                | None \<Rightarrow> last_with (userId v) ex)" if "v \<in> set nw" for v
      using that assms(2) by (simp add: last_with_distinct split: option.splits)
    show ?thesis
      unfolding list_all_iff using 1 2 by auto
  qed
qed

lemma mergeAndUpdateUsers_returns:
  "fst (mergeAndUpdateUsers nw ss) = Inr (mergedUsers (fst (readUsersFromSheet ss)) nw)"
  by (simp add: mergeAndUpdateUsers_def case_prod_beta Let_def writeUsersToSheet_eq)

text \<open>
  Claim C1. \<open>mergeAndUpdateUsers\<close> returns the merge of the stored users with the new
  ones. For every stored list \<open>ex\<close> and every fetched list \<open>nw\<close>, the merge has exactly
  one user per user id, its ids are those of \<open>ex\<close> and of \<open>nw\<close>, and the user it holds
  for an id \<open>k\<close> is the fetched user with id \<open>k\<close> when there is one (the last one, were
  the id fetched twice), and otherwise the stored user with id \<open>k\<close>, unchanged.
\<close>

theorem mergeAndUpdateUsers_last_write_wins:
  "fst (mergeAndUpdateUsers nw ss) = Inr (mergedUsers (fst (readUsersFromSheet ss)) nw) \<and>
   distinct (map userId (mergedUsers ex nw)) \<and>
   set (map userId (mergedUsers ex nw)) = set (map userId ex) \<union> set (map userId nw) \<and>
   find (\<lambda>u. userId u = k) (mergedUsers ex nw) =
     (case last_with k nw of Some u \<Rightarrow> Some u | None \<Rightarrow> last_with k ex)"
  using mergedUsers_find [of k ex nw] mergeAndUpdateUsers_returns [of nw ss]
  by (simp add: mergedUsers_keys)

text \<open>
  Claim C8. For every list of users with distinct user ids, merging the list with itself
  gives the same list: the same users, none twice.
\<close>

theorem merge_idempotent:
  assumes "distinct (map userId us)"
  shows "mergedUsers us us = us"
proof -
  have 1: "foldl step [] us = map (\<lambda>u. (userId u, u)) us"
    using assms foldl_fresh [of us "[]"] by simp
  have 2: "foldl step (map (\<lambda>u. (userId u, u)) us) us = map (\<lambda>u. (userId u, u)) us"
    using assms by (intro foldl_again) (simp_all add: comp_def list_all_iff)
  show ?thesis
    by (simp add: mergedUsers_def uniqueUsers_def Map_values_def 1 2 comp_def)
qed

theorem merge_idempotent_witness:
  "distinct (map userId [\<lparr>userId = Str ''U1'', uname = Some \<lparr>ident_id = Str ''a'', ident_name = Str ''Alice''\<rparr>\<rparr>, \<lparr>userId = Str ''U2'', uname = Some \<lparr>ident_id = Str ''b'', ident_name = Str ''Bob''\<rparr>\<rparr>]) \<and>
   mergedUsers [\<lparr>userId = Str ''U1'', uname = Some \<lparr>ident_id = Str ''a'', ident_name = Str ''Alice''\<rparr>\<rparr>, \<lparr>userId = Str ''U2'', uname = Some \<lparr>ident_id = Str ''b'', ident_name = Str ''Bob''\<rparr>\<rparr>]
               [\<lparr>userId = Str ''U1'', uname = Some \<lparr>ident_id = Str ''a'', ident_name = Str ''Alice''\<rparr>\<rparr>, \<lparr>userId = Str ''U2'', uname = Some \<lparr>ident_id = Str ''b'', ident_name = Str ''Bob''\<rparr>\<rparr>] =
     [\<lparr>userId = Str ''U1'', uname = Some \<lparr>ident_id = Str ''a'', ident_name = Str ''Alice''\<rparr>\<rparr>, \<lparr>userId = Str ''U2'', uname = Some \<lparr>ident_id = Str ''b'', ident_name = Str ''Bob''\<rparr>\<rparr>]"
proof -
  have d: "distinct (map userId [\<lparr>userId = Str ''U1'', uname = Some \<lparr>ident_id = Str ''a'', ident_name = Str ''Alice''\<rparr>\<rparr>, \<lparr>userId = Str ''U2'', uname = Some \<lparr>ident_id = Str ''b'', ident_name = Str ''Bob''\<rparr>\<rparr>])"
    by simp
  show ?thesis
    using d merge_idempotent [OF d] by blast
qed

text \<open>
  Claim C9. The order of the merged list is determined: first the user ids of the stored
  list, in the order of their first occurrences there, then the user ids that only the
  fetch has, in the order of their first occurrences in the fetch; and at each position
  stands the user that wins for that id: the fetched one if the id was fetched, else the
  stored one. When neither list repeats an id, the merged list is the stored list, each
  user overwritten in place by the fetched user with the same id, followed by the fetched
  users with new ids in fetch order.
\<close>

theorem merged_order_deterministic:
  "map userId (mergedUsers ex nw) =
     firsts (map userId ex) @ filter (\<lambda>k. k \<notin> set (map userId ex)) (firsts (map userId nw)) \<and>
   list_all (\<lambda>u. Some u = (case last_with (userId u) nw of Some v \<Rightarrow> Some v
                              | None \<Rightarrow> last_with (userId u) ex))
     (mergedUsers ex nw) \<and>
   (distinct (map userId ex) \<and> distinct (map userId nw) \<longrightarrow>
      mergedUsers ex nw =
        map (overlay nw) ex @ filter (\<lambda>v. userId v \<notin> set (map userId ex)) nw)"
  using merged_distinct_lists [of ex nw]
  by (simp add: mergedUsers_keys firsts_append mergedUsers_resolved)

theorem merged_order_deterministic_witness:
  "distinct (map userId [\<lparr>userId = Str ''U1'', uname = Some \<lparr>ident_id = Str ''a'', ident_name = Str ''Alice''\<rparr>\<rparr>, \<lparr>userId = Str ''U2'', uname = Some \<lparr>ident_id = Str ''b'', ident_name = Str ''Bob''\<rparr>\<rparr>]) \<and>
   distinct (map userId [\<lparr>userId = Str ''U3'', uname = Some \<lparr>ident_id = Str ''c'', ident_name = Str ''Carol''\<rparr>\<rparr>, \<lparr>userId = Str ''U1'', uname = Some \<lparr>ident_id = Str ''a2'', ident_name = Str ''Alicia''\<rparr>\<rparr>]) \<and>
   mergedUsers [\<lparr>userId = Str ''U1'', uname = Some \<lparr>ident_id = Str ''a'', ident_name = Str ''Alice''\<rparr>\<rparr>, \<lparr>userId = Str ''U2'', uname = Some \<lparr>ident_id = Str ''b'', ident_name = Str ''Bob''\<rparr>\<rparr>]
               [\<lparr>userId = Str ''U3'', uname = Some \<lparr>ident_id = Str ''c'', ident_name = Str ''Carol''\<rparr>\<rparr>, \<lparr>userId = Str ''U1'', uname = Some \<lparr>ident_id = Str ''a2'', ident_name = Str ''Alicia''\<rparr>\<rparr>] =
     [\<lparr>userId = Str ''U1'', uname = Some \<lparr>ident_id = Str ''a2'', ident_name = Str ''Alicia''\<rparr>\<rparr>, \<lparr>userId = Str ''U2'', uname = Some \<lparr>ident_id = Str ''b'', ident_name = Str ''Bob''\<rparr>\<rparr>, \<lparr>userId = Str ''U3'', uname = Some \<lparr>ident_id = Str ''c'', ident_name = Str ''Carol''\<rparr>\<rparr>]"
proof -
  have d: "distinct (map userId [\<lparr>userId = Str ''U1'', uname = Some \<lparr>ident_id = Str ''a'', ident_name = Str ''Alice''\<rparr>\<rparr>, \<lparr>userId = Str ''U2'', uname = Some \<lparr>ident_id = Str ''b'', ident_name = Str ''Bob''\<rparr>\<rparr>]) \<and>
           distinct (map userId [\<lparr>userId = Str ''U3'', uname = Some \<lparr>ident_id = Str ''c'', ident_name = Str ''Carol''\<rparr>\<rparr>, \<lparr>userId = Str ''U1'', uname = Some \<lparr>ident_id = Str ''a2'', ident_name = Str ''Alicia''\<rparr>\<rparr>])"
    by simp
  with merged_order_deterministic
         [of "[\<lparr>userId = Str ''U1'', uname = Some \<lparr>ident_id = Str ''a'', ident_name = Str ''Alice''\<rparr>\<rparr>, \<lparr>userId = Str ''U2'', uname = Some \<lparr>ident_id = Str ''b'', ident_name = Str ''Bob''\<rparr>\<rparr>]"
             "[\<lparr>userId = Str ''U3'', uname = Some \<lparr>ident_id = Str ''c'', ident_name = Str ''Carol''\<rparr>\<rparr>, \<lparr>userId = Str ''U1'', uname = Some \<lparr>ident_id = Str ''a2'', ident_name = Str ''Alicia''\<rparr>\<rparr>]"]
  have "mergedUsers [\<lparr>userId = Str ''U1'', uname = Some \<lparr>ident_id = Str ''a'', ident_name = Str ''Alice''\<rparr>\<rparr>, \<lparr>userId = Str ''U2'', uname = Some \<lparr>ident_id = Str ''b'', ident_name = Str ''Bob''\<rparr>\<rparr>]
               [\<lparr>userId = Str ''U3'', uname = Some \<lparr>ident_id = Str ''c'', ident_name = Str ''Carol''\<rparr>\<rparr>, \<lparr>userId = Str ''U1'', uname = Some \<lparr>ident_id = Str ''a2'', ident_name = Str ''Alicia''\<rparr>\<rparr>] =
        map (overlay [\<lparr>userId = Str ''U3'', uname = Some \<lparr>ident_id = Str ''c'', ident_name = Str ''Carol''\<rparr>\<rparr>, \<lparr>userId = Str ''U1'', uname = Some \<lparr>ident_id = Str ''a2'', ident_name = Str ''Alicia''\<rparr>\<rparr>])
            [\<lparr>userId = Str ''U1'', uname = Some \<lparr>ident_id = Str ''a'', ident_name = Str ''Alice''\<rparr>\<rparr>, \<lparr>userId = Str ''U2'', uname = Some \<lparr>ident_id = Str ''b'', ident_name = Str ''Bob''\<rparr>\<rparr>] @
        filter (\<lambda>v. userId v \<notin> set (map userId [\<lparr>userId = Str ''U1'', uname = Some \<lparr>ident_id = Str ''a'', ident_name = Str ''Alice''\<rparr>\<rparr>, \<lparr>userId = Str ''U2'', uname = Some \<lparr>ident_id = Str ''b'', ident_name = Str ''Bob''\<rparr>\<rparr>]))
            [\<lparr>userId = Str ''U3'', uname = Some \<lparr>ident_id = Str ''c'', ident_name = Str ''Carol''\<rparr>\<rparr>, \<lparr>userId = Str ''U1'', uname = Some \<lparr>ident_id = Str ''a2'', ident_name = Str ''Alicia''\<rparr>\<rparr>]"
    by blast
  with d show ?thesis
    by (simp add: overlay_def last_with_def)
qed

end
